theory Spec2Isabelle
  imports Complex_Main
begin

section \<open>Python errors\<close>

text \<open>
  Every exception that the modelled code can raise is a value; a function that can raise
  returns \<open>py_error + 'a\<close>, with \<open>Inl\<close> for the exception.
\<close>

datatype py_error = ValueError | TypeError | IndexError | ZeroDivisionError | RuntimeError

section \<open>Batching: \<^verbatim>\<open>sidechainnet/datasets/collate.py\<close>\<close>

subsection \<open>The numpy arrays that are collated\<close>

text \<open>
  An instance is a numpy array: a sequence is one-dimensional, angles and coordinates are
  two-dimensional. A two-dimensional array carries its number of columns, so that the shape
  \<open>(0, w)\<close> exists as in numpy.
  The element type is left open (integers for sequences, real numbers for the rest): the
  final \<^verbatim>\<open>torch.LongTensor\<close> / \<^verbatim>\<open>torch.FloatTensor\<close> of \<^verbatim>\<open>collate_fn\<close> changes the
  storage type of the entries only, and the model keeps the entries as they are.
\<close>

datatype 'a ndarray = Arr1 (entries_of: "'a list") | Arr2 (ncols_of: nat) (rows_of: "'a list list")

text \<open>\<^verbatim>\<open>len(inst)\<close>: the size of the first axis.\<close>

fun len :: "'a ndarray \<Rightarrow> nat" where
  "len (Arr1 xs) = length xs"
| "len (Arr2 w rows) = length rows"

text \<open>\<^verbatim>\<open>inst.shape\<close> and \<^verbatim>\<open>inst.shape[-1]\<close>.\<close>

fun np_shape :: "'a ndarray \<Rightarrow> nat list" where
  "np_shape (Arr1 xs) = [length xs]"
| "np_shape (Arr2 w rows) = [length rows, w]"

fun shape_last :: "'a ndarray \<Rightarrow> nat" where
  "shape_last (Arr1 xs) = length xs"
| "shape_last (Arr2 w rows) = w"

text \<open>
  \<^verbatim>\<open>np.concatenate((a, z), axis=0)\<close>: both arrays must have the same number of dimensions
  and agree on every axis but the first, otherwise numpy raises \<^verbatim>\<open>ValueError\<close>.
\<close>

fun np_concatenate :: "'a ndarray \<Rightarrow> 'a ndarray \<Rightarrow> py_error + 'a ndarray" where
  "np_concatenate (Arr1 xs) (Arr1 ys) = Inr (Arr1 (xs @ ys))"
| "np_concatenate (Arr2 w rows) (Arr2 w' rows') =
     (if w = w' then Inr (Arr2 w (rows @ rows')) else Inl ValueError)"
| "np_concatenate (Arr1 xs) (Arr2 w' rows') = Inl ValueError"
| "np_concatenate (Arr2 w rows) (Arr1 ys) = Inl ValueError"

text \<open>
  \<^verbatim>\<open>np.array(batch)\<close> stacks a list of arrays into one array with a new first axis; the
  arrays must all have the same shape (\<^verbatim>\<open>ValueError\<close> otherwise). The stacked array is
  represented by the list of its entries along the first axis.
\<close>

fun np_array :: "'a ndarray list \<Rightarrow> py_error + 'a ndarray list" where
  "np_array [] = Inr []"
| "np_array (c # cs) =
     (if list_all (\<lambda>d. np_shape d = np_shape c) cs then Inr (c # cs) else Inl ValueError)"

text \<open>
  The Python slice \<^verbatim>\<open>xs[:k]\<close>: everything when \<open>k\<close> is \<^verbatim>\<open>None\<close>, the first \<open>k\<close>
  entries when \<open>k \<ge> 0\<close>, and all but the last \<open>-k\<close> entries when \<open>k < 0\<close>.
\<close>

fun py_slice_to :: "int option \<Rightarrow> 'b list \<Rightarrow> 'b list" where
  "py_slice_to None xs = xs"
| "py_slice_to (Some k) xs =
     (if 0 \<le> k then take (nat k) xs else take (nat (int (length xs) + k)) xs)"

text \<open>\<^verbatim>\<open>batch[:, :k]\<close> on one entry of the batch: the slice of the entry's first axis.\<close>

fun trim :: "int option \<Rightarrow> 'a ndarray \<Rightarrow> 'a ndarray" where
  "trim k (Arr1 xs) = Arr1 (py_slice_to k xs)"
| "trim k (Arr2 w rows) = Arr2 w (py_slice_to k rows)"

text \<open>Python's \<^verbatim>\<open>max\<close> of an iterable raises \<^verbatim>\<open>ValueError\<close> when it is empty.\<close>

fun py_max :: "nat list \<Rightarrow> py_error + nat" where
  "py_max [] = Inl ValueError"
| "py_max (x # xs) = Inr (fold max xs x)"

subsection \<open>\<^verbatim>\<open>collate_fn\<close> and \<^verbatim>\<open>paired_collate_fn\<close>\<close>

definition MAX_SEQ_LEN :: int where
  "MAX_SEQ_LEN = 500"

text \<open>
  The padding of one instance: \<^verbatim>\<open>np.ones(k) * VOCAB.pad_id\<close> for sequences,
  \<^verbatim>\<open>np.zeros((k, inst.shape[-1]))\<close> otherwise, with \<open>k = max_batch_len - len(inst)\<close>.
\<close>

definition padding :: "int \<Rightarrow> bool \<Rightarrow> nat \<Rightarrow> ('a::ring_1) ndarray \<Rightarrow> 'a ndarray" where
  "padding pad_id sequences max_batch_len inst =
     (if sequences
      then Arr1 (map (\<lambda>one. one * of_int pad_id) (replicate (max_batch_len - len inst) 1))
      else Arr2 (shape_last inst)
             (replicate (max_batch_len - len inst) (replicate (shape_last inst) 0)))"

text \<open>The loop of \<^verbatim>\<open>collate_fn\<close> over the instances; it stops at the first exception.\<close>

fun pad_insts ::
  "int \<Rightarrow> bool \<Rightarrow> nat \<Rightarrow> ('a::ring_1) ndarray list \<Rightarrow> py_error + 'a ndarray list" where
  "pad_insts pad_id sequences max_batch_len [] = Inr []"
| "pad_insts pad_id sequences max_batch_len (inst # insts) =
     (case np_concatenate inst (padding pad_id sequences max_batch_len inst) of
        Inl e \<Rightarrow> Inl e
      | Inr c \<Rightarrow>
          (case pad_insts pad_id sequences max_batch_len insts of
             Inl e \<Rightarrow> Inl e
           | Inr batch \<Rightarrow> Inr (c # batch)))"

text \<open>
  \<^verbatim>\<open>collate_fn(insts, coords, sequences, max_seq_len)\<close>. The constants
  \<^verbatim>\<open>NUM_COORDS_PER_RES\<close> and \<^verbatim>\<open>VOCAB.pad_id\<close> are imported from modules outside the
  modelled files and are parameters here. With \<^verbatim>\<open>coords=True\<close> and
  \<^verbatim>\<open>max_seq_len=None\<close> the product \<^verbatim>\<open>max_seq_len * NUM_COORDS_PER_RES\<close> raises
  \<^verbatim>\<open>TypeError\<close>.
\<close>

definition collate_fn ::
  "nat \<Rightarrow> int \<Rightarrow> ('a::ring_1) ndarray list \<Rightarrow> bool \<Rightarrow> bool \<Rightarrow> int option
    \<Rightarrow> py_error + 'a ndarray list" where
  "collate_fn NUM_COORDS_PER_RES pad_id insts coords sequences max_seq_len =
     (case py_max (map len insts) of
        Inl e \<Rightarrow> Inl e
      | Inr max_batch_len \<Rightarrow>
          (case pad_insts pad_id sequences max_batch_len insts of
             Inl e \<Rightarrow> Inl e
           | Inr padded \<Rightarrow>
               (case np_array padded of
                  Inl e \<Rightarrow> Inl e
                | Inr batch \<Rightarrow>
                    (if coords
                     then (case max_seq_len of
                             None \<Rightarrow> Inl TypeError
                           | Some m \<Rightarrow>
                               Inr (map (trim (Some (m * int NUM_COORDS_PER_RES))) batch))
                     else Inr (map (trim max_seq_len) batch)))))"

text \<open>
  \<^verbatim>\<open>paired_collate_fn(insts)\<close>: \<^verbatim>\<open>insts\<close> is a list of triples (sequence, angles,
  coordinates). Unpacking \<^verbatim>\<open>list(zip(*insts))\<close> into three names raises
  \<^verbatim>\<open>ValueError\<close> when the list is empty.
\<close>

definition paired_collate_fn ::
  "nat \<Rightarrow> int \<Rightarrow> (int ndarray \<times> ('a::ring_1) ndarray \<times> 'a ndarray) list
    \<Rightarrow> py_error + (int ndarray list \<times> 'a ndarray list \<times> 'a ndarray list)" where
  "paired_collate_fn NUM_COORDS_PER_RES pad_id insts =
     (if insts = [] then Inl ValueError
      else
        (case collate_fn NUM_COORDS_PER_RES pad_id (map fst insts) False True
                (Some MAX_SEQ_LEN) of
           Inl e \<Rightarrow> Inl e
         | Inr sequences \<Rightarrow>
             (case collate_fn NUM_COORDS_PER_RES pad_id (map (fst \<circ> snd) insts) False False
                     (Some MAX_SEQ_LEN) of
                Inl e \<Rightarrow> Inl e
              | Inr angles \<Rightarrow>
                  (case collate_fn NUM_COORDS_PER_RES pad_id (map (snd \<circ> snd) insts) True False
                          (Some MAX_SEQ_LEN) of
                     Inl e \<Rightarrow> Inl e
                   | Inr coords \<Rightarrow> Inr (sequences, angles, coords)))))"

section \<open>Losses: \<^verbatim>\<open>sidechainnet/examples/losses.py\<close>\<close>

subsection \<open>Tensor entries\<close>

text \<open>
  The entries of a float tensor are modelled by exact real numbers, extended by the special
  values that the code itself distinguishes or produces: \<open>NaN\<close> (missing data, \<open>0/0\<close>,
  \<open>\<infinity> - \<infinity>\<close>) and the two infinities (\<open>x/0\<close>). Arithmetic on finite values is exact:
  rounding and overflow of the machine formats (and the cast \<^verbatim>\<open>.float()\<close>) are outside
  the model. The special values follow IEEE 754.
\<close>

datatype fl = NaN | Fin real | PInf | NInf

fun isnan :: "fl \<Rightarrow> bool" where
  "isnan NaN = True"
| "isnan x = False"

fun fneg :: "fl \<Rightarrow> fl" where
  "fneg NaN = NaN"
| "fneg (Fin x) = Fin (- x)"
| "fneg PInf = NInf"
| "fneg NInf = PInf"

fun fadd :: "fl \<Rightarrow> fl \<Rightarrow> fl" where
  "fadd (Fin x) (Fin y) = Fin (x + y)"
| "fadd NaN y = NaN"
| "fadd x NaN = NaN"
| "fadd PInf NInf = NaN"
| "fadd NInf PInf = NaN"
| "fadd PInf y = PInf"
| "fadd NInf y = NInf"
| "fadd x PInf = PInf"
| "fadd x NInf = NInf"

definition fsub :: "fl \<Rightarrow> fl \<Rightarrow> fl" where
  "fsub x y = fadd x (fneg y)"

text \<open>The sign of a product with an infinity; \<open>0 \<times> \<infinity>\<close> is \<open>NaN\<close>.\<close>

fun signed_inf :: "real \<Rightarrow> fl" where
  "signed_inf s = (if 0 < s then PInf else if s < 0 then NInf else NaN)"

fun fmul :: "fl \<Rightarrow> fl \<Rightarrow> fl" where
  "fmul (Fin x) (Fin y) = Fin (x * y)"
| "fmul NaN y = NaN"
| "fmul x NaN = NaN"
| "fmul PInf (Fin y) = signed_inf y"
| "fmul NInf (Fin y) = signed_inf (- y)"
| "fmul (Fin x) PInf = signed_inf x"
| "fmul (Fin x) NInf = signed_inf (- x)"
| "fmul PInf PInf = PInf"
| "fmul NInf NInf = PInf"
| "fmul PInf NInf = NInf"
| "fmul NInf PInf = NInf"

text \<open>Division of a tensor entry by a count (a non-negative integer).\<close>

fun fdiv_nat :: "fl \<Rightarrow> nat \<Rightarrow> fl" where
  "fdiv_nat NaN n = NaN"
| "fdiv_nat (Fin x) n = (if n = 0 then signed_inf x else Fin (x / real n))"
| "fdiv_nat PInf n = PInf"
| "fdiv_nat NInf n = NInf"

fun fsqrt :: "fl \<Rightarrow> fl" where
  "fsqrt NaN = NaN"
| "fsqrt (Fin x) = (if x < 0 then NaN else Fin (sqrt x))"
| "fsqrt PInf = PInf"
| "fsqrt NInf = NaN"


text \<open>\<^verbatim>\<open>clamp_min\<close> keeps \<open>NaN\<close>.\<close>

fun clamp_min :: "fl \<Rightarrow> real \<Rightarrow> fl" where
  "clamp_min NaN c = NaN"
| "clamp_min (Fin x) c = Fin (max x c)"
| "clamp_min PInf c = PInf"
| "clamp_min NInf c = Fin c"

text \<open>Comparison of an entry with a finite constant; every comparison with \<open>NaN\<close> is false.\<close>

fun fgt :: "fl \<Rightarrow> real \<Rightarrow> bool" where
  "fgt (Fin x) c = (c < x)"
| "fgt PInf c = True"
| "fgt x c = False"

fun flt :: "fl \<Rightarrow> real \<Rightarrow> bool" where
  "flt (Fin x) c = (x < c)"
| "flt NInf c = True"
| "flt x c = False"

text \<open>\<^verbatim>\<open>sum\<close> of a list of entries, and \<^verbatim>\<open>mean\<close>: the sum divided by the number of entries.\<close>

fun fsum :: "fl list \<Rightarrow> fl" where
  "fsum [] = Fin 0"
| "fsum (x # xs) = fadd x (fsum xs)"

definition fmean :: "fl list \<Rightarrow> fl" where
  "fmean xs = fdiv_nat (fsum xs) (length xs)"


text \<open>
  \<^verbatim>\<open>torch.nn.functional.mse_loss(input, target)\<close> on two one-dimensional tensors of the
  same length: the mean of \<open>(input - target)\<^sup>2\<close>.
\<close>

definition mse_loss :: "fl list \<Rightarrow> fl list \<Rightarrow> fl" where
  "mse_loss input target = fmean (map (\<lambda>(x, y). fmul (fsub x y) (fsub x y)) (zip input target))"

text \<open>
  Indexing with a boolean mask, \<^verbatim>\<open>x[mask]\<close>: the mask must have the shape of the indexed
  axes (\<^verbatim>\<open>IndexError\<close> otherwise); the selected entries keep their order.
\<close>

definition mask_select :: "'a list \<Rightarrow> bool list \<Rightarrow> py_error + 'a list" where
  "mask_select x msk =
     (if length msk \<noteq> length x then Inl IndexError
      else Inr (map fst (filter snd (zip x msk))))"

subsection \<open>\<^verbatim>\<open>pairwise_internal_dist\<close> and \<^verbatim>\<open>drmsd\<close>\<close>

text \<open>
  A coordinate tensor of shape \<open>(L, 3)\<close> is the list of its \<open>L\<close> rows. The matrix product
  \<^verbatim>\<open>x1 @ x2.T\<close> has the dot products of the rows as entries.
\<close>

definition dot :: "fl list \<Rightarrow> fl list \<Rightarrow> fl" where
  "dot r1 r2 = fsum (map (\<lambda>(u, v). fmul u v) (zip r1 r2))"

text \<open>
  \<^verbatim>\<open>x1_norm = x1.pow(2).sum(dim=-1, keepdim=True)\<close>;
  \<^verbatim>\<open>res = addmm(x1_norm.T, x1, x2.T, alpha=-2).add_(x1_norm)\<close>, that is
  \<open>res[i][j] = (x1_norm[j] + (-2) * (x[i] \<cdot> x[j])) + x1_norm[i]\<close>; then
  \<^verbatim>\<open>res.clamp_min_(1e-30).sqrt_()\<close>.
\<close>

definition pairwise_internal_dist :: "fl list list \<Rightarrow> fl list list" where
  "pairwise_internal_dist x =
     (let x1_norm = map (\<lambda>r. fsum (map (\<lambda>v. fmul v v) r)) x
      in map (\<lambda>(r1, n1).
            map (\<lambda>(r2, n2).
               fsqrt (clamp_min (fadd (fadd n2 (fmul (Fin (- 2)) (dot r1 r2))) n1) (1 / 10 ^ 30)))
              (zip x x1_norm))
           (zip x x1_norm))"

text \<open>
  \<^verbatim>\<open>torch.triu_indices(r, c, offset=1)\<close>: the index pairs strictly above the diagonal, row
  by row.
\<close>

definition triu_indices :: "nat \<Rightarrow> nat \<Rightarrow> (nat \<times> nat) list" where
  "triu_indices r c = concat (map (\<lambda>i. map (\<lambda>j. (i, j)) [Suc i..<c]) [0..<r])"

text \<open>
  \<^verbatim>\<open>m[i[0], i[1]]\<close>: the entries of a matrix at a list of index pairs; an index out of
  range raises \<^verbatim>\<open>IndexError\<close>.
\<close>

definition gather :: "'a list list \<Rightarrow> (nat \<times> nat) list \<Rightarrow> py_error + 'a list" where
  "gather m idx =
     (if list_all (\<lambda>(i, j). i < length m \<and> j < length (m ! i)) idx
      then Inr (map (\<lambda>(i, j). m ! i ! j) idx)
      else Inl IndexError)"

text \<open>
  \<^verbatim>\<open>drmsd(a, b)\<close>; \<open>a'\<close> and \<open>b'\<close> stand for the source's \<^verbatim>\<open>a_\<close> and \<^verbatim>\<open>b_\<close>. The
  distance matrix \<^verbatim>\<open>a_\<close> is square, so both arguments of \<^verbatim>\<open>triu_indices\<close> are the
  number of rows of \<^verbatim>\<open>a\<close>.
\<close>

definition drmsd :: "fl list list \<Rightarrow> fl list list \<Rightarrow> py_error + fl" where
  "drmsd a b =
     (let a' = pairwise_internal_dist a;
          b' = pairwise_internal_dist b;
          i = triu_indices (length a') (length a')
      in case gather a' i of
           Inl e \<Rightarrow> Inl e
         | Inr av \<Rightarrow>
             (case gather b' i of
                Inl e \<Rightarrow> Inl e
              | Inr bv \<Rightarrow> Inr (fsqrt (mse_loss av bv))))"

subsection \<open>\<^verbatim>\<open>_tile\<close> and \<^verbatim>\<open>compute_batch_drmsd\<close>\<close>

text \<open>
  \<^verbatim>\<open>_tile(a, 0, n_tile)\<close> on a one-dimensional tensor: \<^verbatim>\<open>a.repeat(n_tile)\<close> followed by
  \<^verbatim>\<open>index_select\<close> with the indices \<open>init_dim * k + i\<close> for \<open>i\<close> in \<open>range(init_dim)\<close> and
  \<open>k\<close> in \<open>range(n_tile)\<close>. \<^verbatim>\<open>np.concatenate\<close> of an empty list (when \<open>init_dim = 0\<close>)
  raises \<^verbatim>\<open>ValueError\<close>.
\<close>

definition tile :: "'a list \<Rightarrow> nat \<Rightarrow> py_error + 'a list" where
  "tile a n_tile =
     (let init_dim = length a;
          repeated = concat (replicate n_tile a);
          order_index = concat (map (\<lambda>i. map (\<lambda>k. init_dim * k + i) [0..<n_tile]) [0..<init_dim])
      in if init_dim = 0 then Inl ValueError
         else Inr (map (\<lambda>j. repeated ! j) order_index))"

text \<open>
  The masking of one protein in the loop of \<^verbatim>\<open>compute_batch_drmsd\<close>:
  \<^verbatim>\<open>batch_padding = _tile((s != 20), 0, NUM_COORDS_PER_RES)\<close>,
  \<^verbatim>\<open>tc = tc[batch_padding]\<close>, \<^verbatim>\<open>missing_atoms = torch.isnan(tc).all(axis=-1)\<close>,
  \<^verbatim>\<open>tc = tc[~missing_atoms]\<close>, \<^verbatim>\<open>pc = pc[~missing_atoms]\<close>. The result is the pair
  \<open>(tc, pc)\<close> that is passed to \<^verbatim>\<open>drmsd\<close>.
\<close>

definition mask_protein ::
  "nat \<Rightarrow> fl list list \<Rightarrow> fl list list \<Rightarrow> int list
    \<Rightarrow> py_error + (fl list list \<times> fl list list)" where
  "mask_protein NUM_COORDS_PER_RES pc tc s =
     (case tile (map (\<lambda>t. t \<noteq> 20) s) NUM_COORDS_PER_RES of
        Inl e \<Rightarrow> Inl e
      | Inr batch_padding \<Rightarrow>
          (case mask_select tc batch_padding of
             Inl e \<Rightarrow> Inl e
           | Inr tc1 \<Rightarrow>
               (let missing_atoms = map (list_all isnan) tc1
                in case mask_select tc1 (map Not missing_atoms) of
                     Inl e \<Rightarrow> Inl e
                   | Inr tc2 \<Rightarrow>
                       (case mask_select pc (map Not missing_atoms) of
                          Inl e \<Rightarrow> Inl e
                        | Inr pc2 \<Rightarrow> Inr (tc2, pc2)))))"

text \<open>
  The loop of \<^verbatim>\<open>compute_batch_drmsd\<close> over \<^verbatim>\<open>zip(pred_coordinates, true_coordinates, seq)\<close>
  with the accumulator \<^verbatim>\<open>drmsds\<close>. The integer division
  \<^verbatim>\<open>len(tc) // NUM_COORDS_PER_RES\<close> raises \<^verbatim>\<open>ZeroDivisionError\<close> when the constant is 0.
\<close>

fun batch_drmsd_loop ::
  "nat \<Rightarrow> fl \<Rightarrow> (fl list list \<times> fl list list \<times> int list) list \<Rightarrow> py_error + fl" where
  "batch_drmsd_loop NUM_COORDS_PER_RES drmsds [] = Inr drmsds"
| "batch_drmsd_loop NUM_COORDS_PER_RES drmsds ((pc, tc, s) # rest) =
     (case mask_protein NUM_COORDS_PER_RES pc tc s of
        Inl e \<Rightarrow> Inl e
      | Inr (tc2, pc2) \<Rightarrow>
          (case drmsd tc2 pc2 of
             Inl e \<Rightarrow> Inl e
           | Inr d \<Rightarrow>
               (if NUM_COORDS_PER_RES = 0 then Inl ZeroDivisionError
                else batch_drmsd_loop NUM_COORDS_PER_RES
                       (fadd drmsds (fdiv_nat d (length tc2 div NUM_COORDS_PER_RES))) rest)))"

text \<open>
  \<^verbatim>\<open>compute_batch_drmsd(true_coordinates, pred_coordinates, seq)\<close>; the final
  \<^verbatim>\<open>drmsds.mean()\<close> is the mean of a single number.
\<close>

definition compute_batch_drmsd ::
  "nat \<Rightarrow> fl list list list \<Rightarrow> fl list list list \<Rightarrow> int list list \<Rightarrow> py_error + fl" where
  "compute_batch_drmsd NUM_COORDS_PER_RES true_coordinates pred_coordinates seq =
     (case batch_drmsd_loop NUM_COORDS_PER_RES (Fin 0)
             (zip pred_coordinates (zip true_coordinates seq)) of
        Inl e \<Rightarrow> Inl e
      | Inr drmsds \<Rightarrow> Inr (fmean [drmsds]))"

subsection \<open>Angle losses\<close>

text \<open>
  An angle tensor is represented by the list of its entries in row-major order, and its
  shape by the length of that list: the angle losses act entry by entry and then average
  over all entries. Two one-dimensional tensors of different lengths are subtracted by
  broadcasting when one of them has a single entry, and raise \<^verbatim>\<open>RuntimeError\<close> otherwise.
\<close>

definition tensor_sub :: "fl list \<Rightarrow> fl list \<Rightarrow> py_error + fl list" where
  "tensor_sub x y =
     (if length x = length y then Inr (map (\<lambda>(u, v). fsub u v) (zip x y))
      else if length y = 1 then Inr (map (\<lambda>u. fsub u (hd y)) x)
      else if length x = 1 then Inr (map (\<lambda>v. fsub (hd x) v) y)
      else Inl RuntimeError)"

text \<open>
  \<^verbatim>\<open>angle_diff(true, pred)\<close>: \<^verbatim>\<open>error = true - pred\<close>, then
  \<^verbatim>\<open>error[error > pi] -= 2 * pi\<close>, then \<^verbatim>\<open>error[error < -pi] += 2 * pi\<close> on the updated
  tensor.
\<close>

definition angle_diff :: "fl list \<Rightarrow> fl list \<Rightarrow> py_error + fl list" where
  "angle_diff true pred =
     (case tensor_sub true pred of
        Inl e \<Rightarrow> Inl e
      | Inr error \<Rightarrow>
          (let error1 = map (\<lambda>e. if fgt e pi then fsub e (Fin (2 * pi)) else e) error;
               error2 = map (\<lambda>e. if flt e (- pi) then fadd e (Fin (2 * pi)) else e) error1
           in Inr error2))"


text \<open>
  \<^verbatim>\<open>angle_mse(true, pred)\<close>: \<^verbatim>\<open>ang_non_nans = ~true.isnan()\<close> and
  \<^verbatim>\<open>mse_loss(pred[ang_non_nans], true[ang_non_nans])\<close>.
\<close>

definition angle_mse :: "fl list \<Rightarrow> fl list \<Rightarrow> py_error + fl" where
  "angle_mse true pred =
     (let ang_non_nans = map (\<lambda>t. \<not> isnan t) true
      in case mask_select pred ang_non_nans of
           Inl e \<Rightarrow> Inl e
         | Inr pred_sel \<Rightarrow>
             (case mask_select true ang_non_nans of
                Inl e \<Rightarrow> Inl e
              | Inr true_sel \<Rightarrow> Inr (mse_loss pred_sel true_sel)))"

section \<open>Reference formulas over the real numbers\<close>

text \<open>
  The statements about the losses compare the code with formulas over the real numbers.
  \<open>val\<close> reads a finite tensor entry as a real number.
\<close>

fun val :: "fl \<Rightarrow> real" where
  "val (Fin x) = x"
| "val x = 0"

text \<open>
  The two corrections of \<^verbatim>\<open>angle_diff\<close> on a real number: \<open>2\<pi>\<close> is subtracted from a
  difference above \<open>\<pi>\<close>, then \<open>2\<pi>\<close> is added to a difference below \<open>-\<pi>\<close>.
\<close>

definition wrap_once :: "real \<Rightarrow> real" where
  "wrap_once e = (let e1 = (if pi < e then e - 2 * pi else e)
                  in if e1 < - pi then e1 + 2 * pi else e1)"





section \<open>Properties of the batching\<close>

subsection \<open>What \<^verbatim>\<open>collate_fn\<close> computes on well-shaped batches\<close>

lemma py_max_nonempty: "py_max xs = Inr (Max (set xs))" if "xs \<noteq> []"
proof (cases xs)
  case Nil
  with that show ?thesis by simp
next
  case (Cons a list)
  have "fold max list a = Max (set (a # list))"
    by (rule Max.set_eq_fold [symmetric])
  with Cons show ?thesis by simp
qed

lemma pad_insts_Arr1:
  "pad_insts pad_id True L (map Arr1 xss) =
     Inr (map (\<lambda>xs. Arr1 (xs @ replicate (L - length xs) (of_int pad_id))) xss)"
  by (induction xss) (simp_all add: padding_def)

lemma pad_insts_Arr2:
  "pad_insts pad_id False L (map (Arr2 w) rss) =
     Inr (map (\<lambda>rows. Arr2 w (rows @ replicate (L - length rows) (replicate w 0))) rss)"
  by (induction rss) (simp_all add: padding_def)

lemma np_array_same_shape:
  "list_all (\<lambda>d. np_shape d = s) cs \<Longrightarrow> np_array cs = Inr cs"
  by (cases cs) (auto simp: list_all_iff)

text \<open>
  A non-empty batch of one-dimensional instances: every instance is extended by
  \<^verbatim>\<open>pad_id\<close> to the longest length, then sliced.
\<close>

lemma collate_fn_Arr1:
  assumes "xss \<noteq> []"
  shows "collate_fn N pad_id (map Arr1 xss) coords True max_seq_len =
     (if coords
      then (case max_seq_len of
              None \<Rightarrow> Inl TypeError
            | Some m \<Rightarrow>
                Inr (map (\<lambda>xs. Arr1 (py_slice_to (Some (m * int N))
                       (xs @ replicate (Max (set (map length xss)) - length xs)
                               (of_int pad_id)))) xss))
      else Inr (map (\<lambda>xs. Arr1 (py_slice_to max_seq_len
                       (xs @ replicate (Max (set (map length xss)) - length xs)
                               (of_int pad_id)))) xss))"
proof -
  let ?L = "Max (set (map length xss))"
  let ?padded = "map (\<lambda>xs. Arr1 (xs @ replicate (?L - length xs) (of_int pad_id))) xss"
  have e: "map len (map Arr1 xss) = map length xss"
    by (induction xss) simp_all
  have m: "py_max (map len (map Arr1 xss)) = Inr ?L"
    unfolding e using assms by (simp add: py_max_nonempty)
  have "list_all (\<lambda>d. np_shape d = [?L]) ?padded"
    by (auto simp: list_all_iff)
  then have a: "np_array ?padded = Inr ?padded"
    by (rule np_array_same_shape)
  show ?thesis
    unfolding collate_fn_def m pad_insts_Arr1 sum.case a
    by (simp add: comp_def split: option.split)
qed

text \<open>
  A non-empty batch of two-dimensional instances with \<open>w\<close> columns each: every instance
  is extended by rows of \<open>w\<close> zeros to the longest length, then sliced.
\<close>

lemma collate_fn_Arr2:
  assumes "rss \<noteq> []"
  shows "collate_fn N pad_id (map (Arr2 w) rss) coords False max_seq_len =
     (if coords
      then (case max_seq_len of
              None \<Rightarrow> Inl TypeError
            | Some m \<Rightarrow>
                Inr (map (\<lambda>rows. Arr2 w (py_slice_to (Some (m * int N))
                       (rows @ replicate (Max (set (map length rss)) - length rows)
                                 (replicate w 0)))) rss))
      else Inr (map (\<lambda>rows. Arr2 w (py_slice_to max_seq_len
                       (rows @ replicate (Max (set (map length rss)) - length rows)
                                 (replicate w 0)))) rss))"
proof -
  let ?L = "Max (set (map length rss))"
  let ?padded = "map (\<lambda>rows. Arr2 w (rows @ replicate (?L - length rows) (replicate w 0))) rss"
  have e: "map len (map (Arr2 w) rss) = map length rss"
    by (induction rss) simp_all
  have m: "py_max (map len (map (Arr2 w) rss)) = Inr ?L"
    unfolding e using assms by (simp add: py_max_nonempty)
  have "list_all (\<lambda>d. np_shape d = [?L, w]) ?padded"
    by (auto simp: list_all_iff)
  then have a: "np_array ?padded = Inr ?padded"
    by (rule np_array_same_shape)
  show ?thesis
    unfolding collate_fn_def m pad_insts_Arr2 sum.case a
    by (simp add: comp_def split: option.split)
qed



lemma len_trim_nonneg: "0 \<le> k \<Longrightarrow> int (len (trim (Some k) c)) \<le> k"
  by (cases c) auto

lemma collate_fn_columns:
  assumes "collate_fn N pad_id insts coords sequences (Some m) = Inr batch" and "0 \<le> m"
  shows "list_all (\<lambda>c. int (len c) \<le> (if coords then m * int N else m)) batch"
proof -
  have "0 \<le> m * int N" using assms(2) by simp
  with assms show ?thesis
    by (auto simp: collate_fn_def list_all_iff len_trim_nonneg
        split: sum.splits if_splits simp del: trim.simps)
qed

lemma paired_collate_fn_raw:
  fixes raw :: "(int list \<times> ('a::ring_1) list list \<times> 'a list list) list"
  assumes "raw \<noteq> []"
  shows "paired_collate_fn N pad_id (map (\<lambda>(s, a, c). (Arr1 s, Arr2 wa a, Arr2 wc c)) raw) =
    Inr (map (\<lambda>s. Arr1 (py_slice_to (Some MAX_SEQ_LEN)
                (s @ replicate (Max (set (map length (map fst raw))) - length s) (of_int pad_id))))
           (map fst raw),
         map (\<lambda>a. Arr2 wa (py_slice_to (Some MAX_SEQ_LEN)
                (a @ replicate (Max (set (map length (map (fst \<circ> snd) raw))) - length a)
                      (replicate wa 0))))
           (map (fst \<circ> snd) raw),
         map (\<lambda>c. Arr2 wc (py_slice_to (Some (MAX_SEQ_LEN * int N))
                (c @ replicate (Max (set (map length (map (snd \<circ> snd) raw))) - length c)
                      (replicate wc 0))))
           (map (snd \<circ> snd) raw))"
proof -
  let ?insts = "map (\<lambda>(s, a, c). (Arr1 s, Arr2 wa a :: 'a ndarray, Arr2 wc c :: 'a ndarray)) raw"
  have s: "map fst ?insts = map Arr1 (map fst raw)"
    by (induction raw) auto
  have a: "map (fst \<circ> snd) ?insts = map (Arr2 wa) (map (fst \<circ> snd) raw)"
    by (induction raw) auto
  have c: "map (snd \<circ> snd) ?insts = map (Arr2 wc) (map (snd \<circ> snd) raw)"
    by (induction raw) auto
  have ne: "map fst raw \<noteq> []" "map (fst \<circ> snd) raw \<noteq> []" "map (snd \<circ> snd) raw \<noteq> []" "?insts \<noteq> []"
    using assms by simp_all
  show ?thesis
    unfolding paired_collate_fn_def s a c collate_fn_Arr1 [OF ne(1)] collate_fn_Arr2 [OF ne(2)]
      collate_fn_Arr2 [OF ne(3)]
    using ne(4) by simp
qed

lemma paired_collate_fn_columns:
  assumes "paired_collate_fn N pad_id insts = Inr (S, A, C)"
  shows "list_all (\<lambda>x. int (len x) \<le> 500) S \<and> list_all (\<lambda>x. int (len x) \<le> 500) A \<and>
         list_all (\<lambda>x. int (len x) \<le> 500 * int N) C"
proof -
  from assms have S: "collate_fn N pad_id (map fst insts) False True (Some 500) = Inr S"
    and A: "collate_fn N pad_id (map (fst \<circ> snd) insts) False False (Some 500) = Inr A"
    and C: "collate_fn N pad_id (map (snd \<circ> snd) insts) True False (Some 500) = Inr C"
    by (auto simp: paired_collate_fn_def MAX_SEQ_LEN_def split: if_splits sum.splits)
  show ?thesis
    using collate_fn_columns [OF S] collate_fn_columns [OF A] collate_fn_columns [OF C]
    by simp
qed

lemma Max_mult_left:
  fixes xs :: "nat list"
  assumes "xs \<noteq> []"
  shows "Max (set (map (\<lambda>x. N * x) xs)) = N * Max (set xs)"
proof -
  have "mono (\<lambda>x::nat. N * x)" by (simp add: mono_def)
  then have "N * Max (set xs) = Max ((\<lambda>x. N * x) ` set xs)"
    using assms by (intro mono_Max_commute) simp_all
  then show ?thesis by simp
qed

lemma take_drop_take_append:
  assumes "k + n \<le> m" and "k + n \<le> length xs"
  shows "take n (drop k (take m (xs @ ys))) = take n (drop k xs)"
proof -
  have "take n (drop k (take m (xs @ ys))) = take n (take (m - k) (drop k (xs @ ys)))"
    by (simp only: drop_take)
  also have "\<dots> = take (min n (m - k)) (drop k (xs @ ys))"
    by (simp only: take_take)
  also have "min n (m - k) = n"
    using assms(1) by simp
  also have "drop k (xs @ ys) = drop k xs @ ys"
    using assms(2) by simp
  also have "take n (drop k xs @ ys) = take n (drop k xs)"
    using assms(2) by simp
  finally show ?thesis .
qed

subsection \<open>Claims about the batching\<close>




text \<open>
  C2 (as amended). For every \<^verbatim>\<open>max_seq_len\<close> \<open>m \<ge> 0\<close>: every batch that \<^verbatim>\<open>collate_fn\<close> returns
  has at most \<open>m\<close> columns (at most \<open>m * NUM_COORDS_PER_RES\<close> when \<^verbatim>\<open>coords=True\<close>), and
  \<^verbatim>\<open>collate_fn\<close> does return a batch on every non-empty list of one-dimensional instances
  (\<^verbatim>\<open>sequences=True\<close>) and of two-dimensional instances of a common width
  (\<^verbatim>\<open>sequences=False\<close>). Every triple of batches that \<^verbatim>\<open>paired_collate_fn\<close> returns has at
  most 500, 500 and \<open>500 * NUM_COORDS_PER_RES\<close> columns, and \<^verbatim>\<open>paired_collate_fn\<close> does
  return on every non-empty list of well-shaped triples.
\<close>

theorem collate_fn_truncates:
  fixes insts :: "('a::ring_1) ndarray list" and xss :: "'a list list"
    and raw :: "(int list \<times> 'a list list \<times> 'a list list) list"
  assumes "0 \<le> m"
  shows "(\<forall>batch. collate_fn N pad_id insts coords sequences (Some m) = Inr batch \<longrightarrow>
            list_all (\<lambda>c. int (len c) \<le> (if coords then m * int N else m)) batch) \<and>
         (xss \<noteq> [] \<longrightarrow>
            (\<exists>batch. collate_fn N pad_id (map Arr1 xss) coords True (Some m) = Inr batch)) \<and>
         (rss \<noteq> [] \<longrightarrow>
            (\<exists>batch. collate_fn N pad_id (map (Arr2 w) rss) coords False (Some m) = Inr batch)) \<and>
         (\<forall>S A C. paired_collate_fn N pad_id pinsts = Inr (S, A, C) \<longrightarrow>
            list_all (\<lambda>x. int (len x) \<le> 500) S \<and> list_all (\<lambda>x. int (len x) \<le> 500) A \<and>
            list_all (\<lambda>x. int (len x) \<le> 500 * int N) C) \<and>
         (raw \<noteq> [] \<longrightarrow>
            (\<exists>S A C. paired_collate_fn N pad_id
                (map (\<lambda>(s, a, c). (Arr1 s, Arr2 wa a, Arr2 wc c)) raw) = Inr (S, A, C)))"
proof (intro conjI allI impI)
  fix batch
  assume "collate_fn N pad_id insts coords sequences (Some m) = Inr batch"
  then show "list_all (\<lambda>c. int (len c) \<le> (if coords then m * int N else m)) batch"
    using assms by (rule collate_fn_columns)
next
  assume "xss \<noteq> []"
  then show "\<exists>batch. collate_fn N pad_id (map Arr1 xss) coords True (Some m) = Inr batch"
    by (simp add: collate_fn_Arr1 del: py_slice_to.simps)
next
  assume "rss \<noteq> []"
  then show "\<exists>batch. collate_fn N pad_id (map (Arr2 w) rss) coords False (Some m) = Inr batch"
    by (simp add: collate_fn_Arr2 del: py_slice_to.simps)
next
  fix S A C
  assume p: "paired_collate_fn N pad_id pinsts = Inr (S, A, C)"
  show "list_all (\<lambda>x. int (len x) \<le> 500) S" "list_all (\<lambda>x. int (len x) \<le> 500) A"
    "list_all (\<lambda>x. int (len x) \<le> 500 * int N) C"
    using paired_collate_fn_columns [OF p] by blast+
next
  assume "raw \<noteq> []"
  then show "\<exists>S A C. paired_collate_fn N pad_id
                (map (\<lambda>(s, a, c). (Arr1 s, Arr2 wa a, Arr2 wc c)) raw) = Inr (S, A, C)"
    by (simp add: paired_collate_fn_raw del: py_slice_to.simps)
qed

text \<open>
  The theorem at \<open>m = 2\<close> on a batch of two sequences, and \<^verbatim>\<open>paired_collate_fn\<close> on one
  triple.
\<close>

theorem collate_fn_truncates_witness:
  "(0 :: int) \<le> 2 \<and>
   collate_fn 14 20 (map Arr1 [[1, 2, 3], [4 :: int]]) False True (Some 2) =
     Inr [Arr1 [1, 2], Arr1 [4, 20]] \<and>
   list_all (\<lambda>c. int (len c) \<le> 2) [Arr1 [1, 2], Arr1 [4, 20 :: int]] \<and>
   (\<exists>S A C. paired_collate_fn 14 20
      (map (\<lambda>(s, a, c). (Arr1 s, Arr2 1 a, Arr2 3 c)) [([7], [[1 :: int]], [[1, 2, 3]])]) =
        Inr (S, A, C))"
proof -
  have m: "(0 :: int) \<le> 2" by simp
  note t = collate_fn_truncates [OF m, where N = 14 and pad_id = 20 and coords = False
      and sequences = True and insts = "map Arr1 [[1, 2, 3], [4 :: int]]"
      and raw = "[([7], [[1 :: int]], [[1, 2, 3]])]" and wa = 1 and wc = 3]
  have e: "collate_fn 14 20 (map Arr1 [[1, 2, 3], [4 :: int]]) False True (Some 2) =
     Inr [Arr1 [1, 2], Arr1 [4, 20]]"
    by code_simp
  from t e have "list_all (\<lambda>c. int (len c) \<le> 2) [Arr1 [1, 2], Arr1 [4, 20 :: int]]"
    by (metis (full_types))
  moreover from t have "\<exists>S A C. paired_collate_fn 14 20
      (map (\<lambda>(s, a, c). (Arr1 s, Arr2 1 a, Arr2 3 c)) [([7], [[1 :: int]], [[1, 2, 3]])]) =
        Inr (S, A, C)"
    by blast
  ultimately show ?thesis using m e by blast
qed

text \<open>
  C2 as stated fails for a negative \<^verbatim>\<open>max_seq_len\<close>: the slice \<^verbatim>\<open>batch[:, :-1]\<close> drops the
  last column only, and the two columns that remain are more than \<open>-1\<close>.
\<close>

theorem collate_fn_truncates_counterexample:
  "collate_fn 14 20 [Arr1 [1, 2, 3 :: int]] False True (Some (- 1)) = Inr [Arr1 [1, 2]] \<and>
   \<not> int (len (Arr1 [1, 2 :: int])) \<le> - 1"
  by (simp add: collate_fn_def padding_def)

text \<open>
  C5. For every non-empty batch of triples (sequence \<open>s\<close>, angles \<open>a\<close>, coordinates \<open>c\<close>) in
  which every \<open>c\<close> has exactly \<open>NUM_COORDS_PER_RES * length s\<close> rows, \<^verbatim>\<open>paired_collate_fn\<close>
  returns batches \<open>S\<close>, \<open>A\<close>, \<open>C\<close> such that every entry of \<open>C\<close> has
  \<open>NUM_COORDS_PER_RES\<close> times as many rows as the entry of \<open>S\<close> has columns; for every
  residue position \<open>i\<close> of the sequence batch, the rows \<open>i * NUM_COORDS_PER_RES\<close> to
  \<open>(i + 1) * NUM_COORDS_PER_RES - 1\<close> of the coordinate batch are all present, and when
  \<open>i\<close> is a residue of the instance they are the instance's own rows at these positions.
\<close>

theorem paired_collate_fn_grouping:
  fixes raw :: "(int list \<times> ('a::ring_1) list list \<times> 'a list list) list"
  assumes "raw \<noteq> []" and "list_all (\<lambda>(s, a, c). length c = N * length s) raw"
  shows "\<exists>S A C.
     paired_collate_fn N pad_id (map (\<lambda>(s, a, c). (Arr1 s, Arr2 wa a, Arr2 wc c)) raw) =
       Inr (S, A, C) \<and>
     length S = length raw \<and> length C = length raw \<and>
     (\<forall>b<length raw.
        len (C ! b) = N * len (S ! b) \<and>
        (\<forall>i<len (S ! b).
           length (take N (drop (i * N) (rows_of (C ! b)))) = N \<and>
           (i < length (fst (raw ! b)) \<longrightarrow>
              take N (drop (i * N) (rows_of (C ! b))) =
              take N (drop (i * N) (snd (snd (raw ! b)))))))"
proof -
  let ?L = "Max (set (map length (map fst raw)))"
  let ?Lc = "Max (set (map length (map (snd \<circ> snd) raw)))"
  let ?S = "map (\<lambda>s. Arr1 (py_slice_to (Some MAX_SEQ_LEN)
                (s @ replicate (?L - length s) (of_int pad_id)))) (map fst raw)"
  let ?C = "map (\<lambda>c. Arr2 wc (py_slice_to (Some (MAX_SEQ_LEN * int N))
                (c @ replicate (?Lc - length c) (replicate wc (0::'a))))) (map (snd \<circ> snd) raw)"
  have lens: "map length (map (snd \<circ> snd) raw) = map (\<lambda>x. N * x) (map length (map fst raw))"
    using assms(2) by (induction raw) auto
  have Lc: "?Lc = N * ?L"
    unfolding lens using assms(1) by (intro Max_mult_left) simp
  have "len (?C ! b) = N * len (?S ! b) \<and>
        (\<forall>i<len (?S ! b).
           length (take N (drop (i * N) (rows_of (?C ! b)))) = N \<and>
           (i < length (fst (raw ! b)) \<longrightarrow>
              take N (drop (i * N) (rows_of (?C ! b))) =
              take N (drop (i * N) (snd (snd (raw ! b))))))" if b: "b < length raw" for b
  proof -
    obtain s a c where r: "raw ! b = (s, a, c)" by (cases "raw ! b")
    have mem: "(s, a, c) \<in> set raw" using b r by (metis nth_mem)
    with assms(2) have c: "length c = N * length s" by (auto simp: list_all_iff)
    have "length s \<in> set (map length (map fst raw))" using mem by force
    then have sL: "length s \<le> ?L" by (intro Max_ge) simp_all
    let ?srow = "s @ replicate (?L - length s) (of_int pad_id :: int)"
    let ?crow = "c @ replicate (?Lc - length c) (replicate wc (0::'a))"
    have ls: "length ?srow = ?L" using sL by simp
    have "length c \<le> ?Lc" unfolding Lc c using sL by simp
    then have lc: "length ?crow = N * ?L" using Lc by simp
    have Sb: "?S ! b = Arr1 (take 500 ?srow)"
      using b r by (simp add: MAX_SEQ_LEN_def)
    have Cb: "?C ! b = Arr2 wc (take (500 * N) ?crow)"
      using b r by (simp add: MAX_SEQ_LEN_def nat_mult_distrib)
    have lS: "len (?S ! b) = min ?L 500" unfolding Sb len.simps length_take ls ..
    have lC: "len (?C ! b) = N * min ?L 500"
      unfolding Cb len.simps length_take lc by (simp add: min_def)
    have grp: "length (take N (drop (i * N) (rows_of (?C ! b)))) = N \<and>
           (i < length (fst (raw ! b)) \<longrightarrow>
              take N (drop (i * N) (rows_of (?C ! b))) =
              take N (drop (i * N) (snd (snd (raw ! b)))))" if i: "i < min ?L 500" for i
    proof
      have "Suc i \<le> min ?L 500" using i by simp
      then have "N * Suc i \<le> N * min ?L 500" by (rule mult_le_mono2)
      then have le: "i * N + N \<le> N * min ?L 500" by (simp add: mult.commute)
      have "length (rows_of (?C ! b)) = N * min ?L 500"
        using lC unfolding Cb by simp
      with le show "length (take N (drop (i * N) (rows_of (?C ! b)))) = N"
        by simp
      show "i < length (fst (raw ! b)) \<longrightarrow>
              take N (drop (i * N) (rows_of (?C ! b))) =
              take N (drop (i * N) (snd (snd (raw ! b))))"
      proof
        assume "i < length (fst (raw ! b))"
        then have "Suc i \<le> length s" using r by simp
        then have "N * Suc i \<le> N * length s" by (rule mult_le_mono2)
        then have 1: "i * N + N \<le> length c" using c by (simp add: mult.commute)
        have "N * min ?L 500 \<le> 500 * N" by (simp add: min_def)
        with le have 2: "i * N + N \<le> 500 * N" by linarith
        have "rows_of (?C ! b) = take (500 * N) ?crow"
          unfolding Cb by simp
        then show "take N (drop (i * N) (rows_of (?C ! b))) =
              take N (drop (i * N) (snd (snd (raw ! b))))"
          unfolding r by (simp only: snd_conv take_drop_take_append [OF 2 1])
      qed
    qed
    show ?thesis
      using lS lC grp by simp
  qed
  moreover have "paired_collate_fn N pad_id
      (map (\<lambda>(s, a, c). (Arr1 s, Arr2 wa a, Arr2 wc c)) raw) =
       Inr (?S, map (\<lambda>a. Arr2 wa (py_slice_to (Some MAX_SEQ_LEN)
                (a @ replicate (Max (set (map length (map (fst \<circ> snd) raw))) - length a)
                      (replicate wa 0))))
           (map (fst \<circ> snd) raw), ?C)"
    using assms(1) by (rule paired_collate_fn_raw)
  moreover have "length ?S = length raw" "length ?C = length raw" by simp_all
  ultimately show ?thesis by blast
qed

text \<open>
  The theorem on a batch of two proteins with two coordinate rows per residue.
\<close>

theorem paired_collate_fn_grouping_witness:
  "list_all (\<lambda>(s, a, c). length c = 2 * length s)
     [([1, 2 :: int], [[0 :: int]], [[1, 1, 1], [2, 2, 2], [3, 3, 3], [4, 4, 4 :: int]]),
      ([3], [[0 :: int]], [[5, 5, 5], [6, 6, 6]])] \<and>
   (\<exists>S A C. paired_collate_fn 2 20
      (map (\<lambda>(s, a, c). (Arr1 s, Arr2 1 a, Arr2 3 c))
        [([1, 2], [[0 :: int]], [[1, 1, 1], [2, 2, 2], [3, 3, 3], [4, 4, 4 :: int]]),
         ([3], [[0 :: int]], [[5, 5, 5], [6, 6, 6]])]) = Inr (S, A, C) \<and>
      len (S ! 1) = 2 \<and> len (C ! 1) = 2 * len (S ! 1) \<and>
      take 2 (drop (0 * 2) (rows_of (C ! 1))) = [[5, 5, 5], [6, 6, 6]])"
proof -
  let ?raw = "[([1, 2], [[0 :: int]], [[1, 1, 1], [2, 2, 2], [3, 3, 3], [4, 4, 4 :: int]]),
      ([3 :: int], [[0 :: int]], [[5, 5, 5], [6, 6, 6]])]"
  have h: "list_all (\<lambda>(s, a, c). length c = 2 * length s) ?raw"
    by simp
  have ne: "?raw \<noteq> []" by simp
  obtain S A C where p: "paired_collate_fn 2 20
      (map (\<lambda>(s, a, c). (Arr1 s, Arr2 1 a, Arr2 3 c)) ?raw) = Inr (S, A, C)"
    and g: "\<forall>b<length ?raw.
        len (C ! b) = 2 * len (S ! b) \<and>
        (\<forall>i<len (S ! b).
           length (take 2 (drop (i * 2) (rows_of (C ! b)))) = 2 \<and>
           (i < length (fst (?raw ! b)) \<longrightarrow>
              take 2 (drop (i * 2) (rows_of (C ! b))) =
              take 2 (drop (i * 2) (snd (snd (?raw ! b))))))"
    using paired_collate_fn_grouping [OF ne h, of 20 1 3] by (elim exE conjE) (rule that, assumption+)
  have "S = [Arr1 [1, 2], Arr1 [3, 20]]"
    using p unfolding paired_collate_fn_raw [OF ne] by (simp add: MAX_SEQ_LEN_def)
  then have s: "len (S ! 1) = 2" by simp
  have g1: "len (C ! 1) = 2 * len (S ! 1) \<and>
        (\<forall>i<len (S ! 1).
           length (take 2 (drop (i * 2) (rows_of (C ! 1)))) = 2 \<and>
           (i < length (fst (?raw ! 1)) \<longrightarrow>
              take 2 (drop (i * 2) (rows_of (C ! 1))) =
              take 2 (drop (i * 2) (snd (snd (?raw ! 1))))))"
    using g [THEN spec, of 1] by simp
  have "take 2 (drop (0 * 2) (rows_of (C ! 1))) = take 2 (drop (0 * 2) (snd (snd (?raw ! 1))))"
    using g1 [THEN conjunct2, THEN spec, of 0] s by simp
  then have "take 2 (drop (0 * 2) (rows_of (C ! 1))) = [[5, 5, 5], [6, 6, 6]]"
    by simp
  with h p s g1 show ?thesis by blast
qed

text \<open>
  C10. \<^verbatim>\<open>collate_fn\<close> raises an exception (the \<^verbatim>\<open>ValueError\<close> of \<^verbatim>\<open>max\<close> on an
  empty iterable) when the list of instances is empty, whatever \<^verbatim>\<open>coords\<close>,
  \<^verbatim>\<open>sequences\<close> and \<^verbatim>\<open>max_seq_len\<close> are.
\<close>

theorem collate_fn_empty_raises:
  "collate_fn NUM_COORDS_PER_RES pad_id [] coords sequences max_seq_len = Inl ValueError"
  by (simp add: collate_fn_def)

section \<open>Properties of the losses\<close>

subsection \<open>Arithmetic on tensor entries and masks\<close>

lemma fsub_Fin [simp]: "fsub (Fin x) (Fin y) = Fin (x - y)"
  by (simp add: fsub_def)

lemma tensor_sub_Fin:
  "length t = length p \<Longrightarrow>
   tensor_sub (map Fin t) (map Fin p) = Inr (map Fin (map (\<lambda>(x, y). x - y) (zip t p)))"
  by (simp add: tensor_sub_def zip_map_map split_beta)

lemma angle_diff_Fin:
  assumes "length t = length p"
  shows "angle_diff (map Fin t) (map Fin p) =
           Inr (map Fin (map (\<lambda>(x, y). wrap_once (x - y)) (zip t p)))"
  unfolding angle_diff_def tensor_sub_Fin [OF assms]
  by (simp add: wrap_once_def Let_def split_beta)

lemma wrap_once_range:
  assumes "- pi \<le> x" "x \<le> pi" "- pi \<le> y" "y \<le> pi"
  shows "- pi \<le> wrap_once (x - y) \<and> wrap_once (x - y) \<le> pi"
  using assms pi_gt_zero by (auto simp: wrap_once_def Let_def)

lemma wrap_once_cong: "\<exists>k::int. wrap_once e = e + 2 * pi * real_of_int k"
proof -
  have "wrap_once e = e \<or> wrap_once e = e - 2 * pi \<or> wrap_once e = e + 2 * pi"
    by (auto simp: wrap_once_def Let_def)
  then consider "wrap_once e = e + 2 * pi * real_of_int 0"
    | "wrap_once e = e + 2 * pi * real_of_int (- 1)"
    | "wrap_once e = e + 2 * pi * real_of_int 1"
    by auto
  then show ?thesis by cases blast+
qed

lemma fadd_zero_left [simp]: "fadd (Fin 0) y = y"
  by (cases y) simp_all




lemma fsum_map_Fin: "fsum (map (\<lambda>i. Fin (f i)) is) = Fin (sum_list (map f is))"
  by (induction "is") simp_all

lemma zip_conv_nth:
  assumes "length xs = length ys"
  shows "zip xs ys = map (\<lambda>i. (xs ! i, ys ! i)) [0..<length xs]"
  using assms by (intro nth_equalityI) simp_all

lemma mask_select_conv_nth:
  assumes "length msk = length xs"
  shows "mask_select xs msk = Inr (map (\<lambda>i. xs ! i) (filter (\<lambda>i. msk ! i) [0..<length xs]))"
  using assms by (simp add: mask_select_def zip_conv_nth filter_map comp_def)


subsection \<open>Claims about the angle losses\<close>

text \<open>
  C9. For tensors \<open>true\<close> and \<open>pred\<close> of the same shape whose entries lie in \<open>[-\<pi>, \<pi>]\<close>,
  \<^verbatim>\<open>angle_diff(true, pred)\<close> has the shape of its inputs, every entry of it lies in
  \<open>[-\<pi>, \<pi>]\<close>, and every entry differs from \<open>true - pred\<close> by an integer multiple of \<open>2\<pi>\<close>.
\<close>

theorem angle_diff_wraps:
  assumes "length t = length p"
    and "\<forall>x\<in>set t. - pi \<le> x \<and> x \<le> pi"
    and "\<forall>y\<in>set p. - pi \<le> y \<and> y \<le> pi"
  shows "\<exists>d. angle_diff (map Fin t) (map Fin p) = Inr (map Fin d) \<and>
             length d = length t \<and>
             (\<forall>i<length t. - pi \<le> d ! i \<and> d ! i \<le> pi \<and>
                (\<exists>k::int. d ! i = t ! i - p ! i + 2 * pi * real_of_int k))"
proof -
  let ?d = "map (\<lambda>(x, y). wrap_once (x - y)) (zip t p)"
  have "- pi \<le> ?d ! i \<and> ?d ! i \<le> pi \<and>
        (\<exists>k::int. ?d ! i = t ! i - p ! i + 2 * pi * real_of_int k)" if "i < length t" for i
  proof -
    have "t ! i \<in> set t" "p ! i \<in> set p" using that assms(1) by simp_all
    then have "- pi \<le> t ! i" "t ! i \<le> pi" "- pi \<le> p ! i" "p ! i \<le> pi"
      using assms(2,3) by blast+
    then have "- pi \<le> wrap_once (t ! i - p ! i) \<and> wrap_once (t ! i - p ! i) \<le> pi"
      by (rule wrap_once_range)
    moreover have "?d ! i = wrap_once (t ! i - p ! i)"
      using that assms(1) by simp
    ultimately show ?thesis using wrap_once_cong [of "t ! i - p ! i"] by simp
  qed
  moreover have "length ?d = length t" using assms(1) by simp
  ultimately show ?thesis using angle_diff_Fin [OF assms(1)] by blast
qed

text \<open>
  The theorem on three angles: the difference \<open>2 - (-2) = 4\<close> is wrapped to \<open>4 - 2\<pi>\<close>.
\<close>

theorem angle_diff_wraps_witness:
  "\<exists>d. angle_diff (map Fin [2, - 2, 1]) (map Fin [- 2, 2, 0]) = Inr (map Fin d) \<and>
       length d = 3 \<and> - pi \<le> d ! 0 \<and> d ! 0 \<le> pi \<and> d ! 0 = 4 - 2 * pi"
proof -
  have b: "2 \<le> pi" "pi < 4" using pi_ge_two pi_less_4 by simp_all
  have h1: "\<forall>x\<in>set [2, - 2, 1 :: real]. - pi \<le> x \<and> x \<le> pi" using b by simp
  have h2: "\<forall>y\<in>set [- 2, 2, 0 :: real]. - pi \<le> y \<and> y \<le> pi" using b by simp
  have l: "length [2, - 2, 1 :: real] = length [- 2, 2, 0 :: real]" by simp
  obtain d where d: "angle_diff (map Fin [2, - 2, 1]) (map Fin [- 2, 2, 0]) = Inr (map Fin d)"
    and n: "length d = length [2, - 2, 1 :: real]"
    and r: "\<forall>i<length [2, - 2, 1 :: real]. - pi \<le> d ! i \<and> d ! i \<le> pi \<and>
                (\<exists>k::int. d ! i = [2, - 2, 1] ! i - [- 2, 2, 0] ! i + 2 * pi * real_of_int k)"
    using angle_diff_wraps [OF l h1 h2] by (elim exE conjE) (rule that, assumption+)
  have "angle_diff (map Fin [2, - 2, 1]) (map Fin [- 2, 2, 0]) =
     Inr (map Fin [4 - 2 * pi, - 4 + 2 * pi, 1])"
    using b by (simp add: angle_diff_def tensor_sub_def Let_def)
  with d have "map Fin d = map Fin [4 - 2 * pi, - 4 + 2 * pi, 1]" by simp
  then have "d = [4 - 2 * pi, - 4 + 2 * pi, 1]"
    by (auto simp: map_eq_Cons_conv)
  then have "d ! 0 = 4 - 2 * pi" by simp
  moreover from r have "- pi \<le> d ! 0 \<and> d ! 0 \<le> pi" by simp
  ultimately show ?thesis using d n by auto
qed



text \<open>
  C6. For tensors of the same shape, \<^verbatim>\<open>angle_mse(true, pred)\<close> is the mean of
  \<open>(pred - true)\<^sup>2\<close> over the positions where \<open>true\<close> is not \<open>NaN\<close>; what \<open>pred\<close> holds at
  the positions where \<open>true\<close> is \<open>NaN\<close> has no effect on the result; and when \<open>true\<close> and
  \<open>pred\<close> are finite at every position where \<open>true\<close> is not \<open>NaN\<close>, and there is such a
  position, the result is the mean squared error over these positions as a real number.
\<close>

theorem angle_mse_masks_nan:
  assumes "length true = length pred"
  shows "angle_mse true pred =
      Inr (fmean (map (\<lambda>i. fmul (fsub (pred ! i) (true ! i)) (fsub (pred ! i) (true ! i)))
                   (filter (\<lambda>i. \<not> isnan (true ! i)) [0..<length true]))) \<and>
    (\<forall>pred'. length pred' = length true \<and>
        (\<forall>i<length true. \<not> isnan (true ! i) \<longrightarrow> pred' ! i = pred ! i) \<longrightarrow>
        angle_mse true pred' = angle_mse true pred) \<and>
    ((\<forall>i<length true. \<not> isnan (true ! i) \<longrightarrow> (\<exists>t p. true ! i = Fin t \<and> pred ! i = Fin p)) \<and>
     (\<exists>i<length true. \<not> isnan (true ! i)) \<longrightarrow>
       angle_mse true pred =
         Inr (Fin ((\<Sum>i | i < length true \<and> \<not> isnan (true ! i). (val (pred ! i) - val (true ! i))\<^sup>2) /
                   real (card {i. i < length true \<and> \<not> isnan (true ! i)}))))"
proof -
  let ?idx = "\<lambda>true. filter (\<lambda>i. \<not> isnan (true ! i)) [0..<length true]"
  let ?sq = "\<lambda>pred i. fmul (fsub (pred ! i) (true ! i)) (fsub (pred ! i) (true ! i))"
  have gen: "angle_mse true q = Inr (fmean (map (?sq q) (?idx true)))"
    if "length q = length true" for q
  proof -
    have m: "filter (\<lambda>i. map (\<lambda>t. \<not> isnan t) true ! i) [0..<length true] = ?idx true"
      by (rule filter_cong) simp_all
    have 1: "mask_select q (map (\<lambda>t. \<not> isnan t) true) = Inr (map (\<lambda>i. q ! i) (?idx true))"
      using that m by (simp add: mask_select_conv_nth)
    have 2: "mask_select true (map (\<lambda>t. \<not> isnan t) true) = Inr (map (\<lambda>i. true ! i) (?idx true))"
      using m by (simp add: mask_select_conv_nth)
    show ?thesis
      unfolding angle_mse_def Let_def 1 2 sum.case mse_loss_def
      by (simp add: zip_map_map zip_same_conv_map comp_def)
  qed
  have A: "angle_mse true pred = Inr (fmean (map (?sq pred) (?idx true)))"
    using assms by (intro gen) simp
  have B: "angle_mse true pred' = angle_mse true pred"
    if "length pred' = length true"
      "\<forall>i<length true. \<not> isnan (true ! i) \<longrightarrow> pred' ! i = pred ! i" for pred'
  proof -
    have "map (?sq pred') (?idx true) = map (?sq pred) (?idx true)"
      using that(2) by (intro map_cong) auto
    then show ?thesis unfolding gen [OF that(1)] A by (rule arg_cong)
  qed
  have C: "angle_mse true pred =
         Inr (Fin ((\<Sum>i | i < length true \<and> \<not> isnan (true ! i). (val (pred ! i) - val (true ! i))\<^sup>2) /
                   real (card {i. i < length true \<and> \<not> isnan (true ! i)})))"
    if fin: "\<forall>i<length true. \<not> isnan (true ! i) \<longrightarrow> (\<exists>t p. true ! i = Fin t \<and> pred ! i = Fin p)"
      and ne: "\<exists>i<length true. \<not> isnan (true ! i)"
  proof -
    let ?S = "{i. i < length true \<and> \<not> isnan (true ! i)}"
    have s: "set (?idx true) = ?S" by auto
    have dist: "distinct (?idx true)" by simp
    have "map (?sq pred) (?idx true) =
          map (\<lambda>i. Fin ((val (pred ! i) - val (true ! i))\<^sup>2)) (?idx true)"
    proof (intro map_cong refl)
      fix i assume "i \<in> set (?idx true)"
      then have "i < length true" "\<not> isnan (true ! i)" by simp_all
      with fin obtain t p where "true ! i = Fin t" "pred ! i = Fin p" by blast
      then show "?sq pred i = Fin ((val (pred ! i) - val (true ! i))\<^sup>2)"
        by (simp add: power2_eq_square)
    qed
    then have "fsum (map (?sq pred) (?idx true)) =
        Fin (sum_list (map (\<lambda>i. (val (pred ! i) - val (true ! i))\<^sup>2) (?idx true)))"
      by (simp only: fsum_map_Fin)
    also have "sum_list (map (\<lambda>i. (val (pred ! i) - val (true ! i))\<^sup>2) (?idx true)) =
        (\<Sum>i\<in>?S. (val (pred ! i) - val (true ! i))\<^sup>2)"
      using dist by (simp only: sum_list_distinct_conv_sum_set s)
    finally have sum: "fsum (map (?sq pred) (?idx true)) =
        Fin (\<Sum>i\<in>?S. (val (pred ! i) - val (true ! i))\<^sup>2)" .
    have len: "length (?idx true) = card ?S"
      using distinct_card [OF dist] s by simp
    have "?S \<noteq> {}" using ne by blast
    moreover have "finite ?S" by simp
    ultimately have "card ?S \<noteq> 0" by (simp only: card_eq_0_iff) simp
    then show ?thesis
      unfolding A fmean_def length_map sum len by simp
  qed
  show ?thesis using A B C by blast
qed

text \<open>
  The theorem on a tensor with one missing angle: the mean of \<open>(2 - 1)\<^sup>2\<close> and \<open>(5 - 3)\<^sup>2\<close>,
  whatever is predicted for the missing angle.
\<close>

theorem angle_mse_masks_nan_witness:
  "angle_mse [Fin 1, NaN, Fin 3] [Fin 2, Fin 7, Fin 5] = Inr (Fin (5 / 2)) \<and>
   angle_mse [Fin 1, NaN, Fin 3] [Fin 2, NaN, Fin 5] =
     angle_mse [Fin 1, NaN, Fin 3] [Fin 2, Fin 7, Fin 5]"
proof -
  let ?true = "[Fin 1, NaN, Fin 3]" and ?pred = "[Fin 2, Fin 7, Fin 5]"
  have l: "length ?true = length ?pred" by simp
  note t = angle_mse_masks_nan [OF l]
  have i: "[0..<length ?true] = [0, 1, 2]" by (simp add: upt_rec)
  have "angle_mse ?true ?pred = Inr (Fin (5 / 2))"
    unfolding t [THEN conjunct1] i by (simp add: fmean_def fsub_def)
  moreover have "angle_mse ?true [Fin 2, NaN, Fin 5] = angle_mse ?true ?pred"
    using t [THEN conjunct2, THEN conjunct1, THEN spec, of "[Fin 2, NaN, Fin 5]"]
    by (simp add: nth_Cons' )
  ultimately show ?thesis by simp
qed

subsection \<open>The distance matrix and \<^verbatim>\<open>drmsd\<close> on finite coordinates\<close>





lemma length_pairwise_internal_dist [simp]:
  "length (pairwise_internal_dist x) = length x"
  by (simp add: pairwise_internal_dist_def Let_def)

lemma length_row_pairwise_internal_dist:
  "i < length x \<Longrightarrow> length (pairwise_internal_dist x ! i) = length x"
  by (simp add: pairwise_internal_dist_def Let_def split_beta)

lemma triu_indices_bounds:
  "(i, j) \<in> set (triu_indices L L) \<Longrightarrow> i < j \<and> j < L"
  by (auto simp: triu_indices_def)

lemma gather_square:
  assumes "length m = L" and "\<forall>i<L. length (m ! i) = L"
  shows "gather m (triu_indices L L) = Inr (map (\<lambda>(i, j). m ! i ! j) (triu_indices L L))"
proof -
  have "list_all (\<lambda>(i, j). i < length m \<and> j < length (m ! i)) (triu_indices L L)"
    unfolding list_all_iff using assms triu_indices_bounds by fastforce
  then show ?thesis by (simp add: gather_def)
qed

lemma gather_pairwise_internal_dist:
  assumes "length x = L"
  shows "gather (pairwise_internal_dist x) (triu_indices L L) =
           Inr (map (\<lambda>(i, j). pairwise_internal_dist x ! i ! j) (triu_indices L L))"
  using assms by (intro gather_square) (simp_all add: length_row_pairwise_internal_dist)






lemma drmsd_unfold:
  assumes "length a = length b"
  shows "drmsd a b =
    Inr (fsqrt (mse_loss
      (map (\<lambda>(i, j). pairwise_internal_dist a ! i ! j) (triu_indices (length a) (length a)))
      (map (\<lambda>(i, j). pairwise_internal_dist b ! i ! j) (triu_indices (length a) (length a)))))"
proof -
  have 1: "gather (pairwise_internal_dist a) (triu_indices (length a) (length a)) =
      Inr (map (\<lambda>(i, j). pairwise_internal_dist a ! i ! j) (triu_indices (length a) (length a)))"
    by (rule gather_pairwise_internal_dist) simp
  have 2: "gather (pairwise_internal_dist b) (triu_indices (length a) (length a)) =
      Inr (map (\<lambda>(i, j). pairwise_internal_dist b ! i ! j) (triu_indices (length a) (length a)))"
    by (rule gather_pairwise_internal_dist) (simp add: assms)
  show ?thesis
    unfolding drmsd_def Let_def length_pairwise_internal_dist 1 2 sum.case ..
qed











subsection \<open>Claims about \<^verbatim>\<open>drmsd\<close>\<close>







subsection \<open>The masking in \<^verbatim>\<open>compute_batch_drmsd\<close>\<close>

lemma nth_concat_replicate:
  "k < n \<Longrightarrow> i < length a \<Longrightarrow> concat (replicate n a) ! (length a * k + i) = a ! i"
proof (induction n arbitrary: k)
  case 0
  then show ?case by simp
next
  case (Suc n)
  show ?case
  proof (cases k)
    case 0
    with Suc.prems show ?thesis by (simp add: nth_append)
  next
    case (Suc k')
    with Suc.prems have "k' < n" by simp
    from Suc.IH [OF this Suc.prems(2)] Suc show ?thesis
      by (simp add: nth_append)
  qed
qed

lemma tile_eq:
  assumes "a \<noteq> []"
  shows "tile a n = Inr (concat (map (replicate n) a))"
proof -
  have "map (\<lambda>j. concat (replicate n a) ! j)
          (concat (map (\<lambda>i. map (\<lambda>k. length a * k + i) [0..<n]) [0..<length a])) =
        concat (map (\<lambda>i. map (\<lambda>k. concat (replicate n a) ! (length a * k + i)) [0..<n])
          [0..<length a])"
    by (simp add: map_concat comp_def)
  also have "\<dots> = concat (map (\<lambda>i. replicate n (a ! i)) [0..<length a])"
  proof -
    have "map (\<lambda>k. concat (replicate n a) ! (length a * k + i)) [0..<n] = replicate n (a ! i)"
      if "i < length a" for i
      using that by (intro nth_equalityI) (simp_all add: nth_concat_replicate)
    then show ?thesis by (intro arg_cong [where f = concat] map_cong) simp_all
  qed
  also have "map (\<lambda>i. replicate n (a ! i)) [0..<length a] = map (replicate n) a"
    by (intro nth_equalityI) simp_all
  finally show ?thesis
    using assms by (simp add: tile_def Let_def)
qed

lemma length_concat_replicate: "length (concat (map (replicate n) a)) = n * length a"
  by (induction a) simp_all

lemma mask_select_length:
  "mask_select x msk = Inr y \<Longrightarrow> length y = length (filter id msk)"
proof -
  assume a: "mask_select x msk = Inr y"
  then have l: "length msk = length x" and y: "y = map fst (filter snd (zip x msk))"
    by (auto simp: mask_select_def split: if_splits)
  have "map snd (filter snd (zip x msk)) = filter id (map snd (zip x msk))"
    by (simp add: filter_map comp_def)
  then have "length (filter snd (zip x msk)) = length (filter id msk)"
    using l by (metis length_map map_snd_zip)
  with y show ?thesis by simp
qed

text \<open>
  With a padding token in the sequence and \<open>pc\<close> of the shape of \<open>tc\<close>, the mask
  \<^verbatim>\<open>~missing_atoms\<close> is shorter than \<open>pc\<close>, and indexing \<open>pc\<close> with it raises.
\<close>

lemma mask_protein_padding_raises:
  assumes "0 < N" and "20 \<in> set s" and "length tc = N * length s" and "length pc = length tc"
  shows "mask_protein N pc tc s = Inl IndexError"
proof -
  let ?bp = "concat (map (replicate N) (map (\<lambda>t. t \<noteq> 20) s))"
  have s: "map (\<lambda>t. t \<noteq> 20) s \<noteq> []" using assms(2) by auto
  have t: "tile (map (\<lambda>t. t \<noteq> 20) s) N = Inr ?bp"
    using s by (rule tile_eq)
  have lbp: "length ?bp = length tc"
    unfolding length_concat_replicate assms(3) by simp
  then obtain tc1 where tc1: "mask_select tc ?bp = Inr tc1"
    by (simp add: mask_select_def)
  have "False \<in> set ?bp" using assms(1,2) by auto
  then have "length (filter id ?bp) < length ?bp"
    by (intro length_filter_less [where x = False]) simp_all
  with mask_select_length [OF tc1] lbp have short: "length tc1 < length pc"
    using assms(4) by simp
  obtain tc2 where tc2: "mask_select tc1 (map Not (map (list_all isnan) tc1)) = Inr tc2"
    by (simp add: mask_select_def)
  have pc: "mask_select pc (map Not (map (list_all isnan) tc1)) = Inl IndexError"
    using short by (simp add: mask_select_def)
  show ?thesis
    unfolding mask_protein_def t sum.case tc1 Let_def tc2 pc ..
qed

text \<open>
  Without a padding token, the atoms whose true coordinates are all \<open>NaN\<close> are removed
  from the true and from the predicted coordinates alike.
\<close>

lemma mask_protein_no_padding:
  assumes "s \<noteq> []" and "20 \<notin> set s" and "length tc = N * length s" and "length pc = length tc"
  shows "mask_protein N pc tc s =
    Inr (map (\<lambda>i. tc ! i) (filter (\<lambda>i. \<not> list_all isnan (tc ! i)) [0..<length tc]),
         map (\<lambda>i. pc ! i) (filter (\<lambda>i. \<not> list_all isnan (tc ! i)) [0..<length tc]))"
proof -
  let ?bp = "concat (map (replicate N) (map (\<lambda>t. t \<noteq> 20) s))"
  have t: "tile (map (\<lambda>t. t \<noteq> 20) s) N = Inr ?bp"
    using assms(1) by (intro tile_eq) simp
  have "?bp = replicate (length ?bp) True"
    using assms(2) by (intro replicate_eqI) auto
  moreover have "length ?bp = length tc"
    unfolding length_concat_replicate assms(3) by simp
  ultimately have bp: "?bp = replicate (length tc) True"
    by simp
  have tc1: "mask_select tc ?bp = Inr tc"
    unfolding bp by (simp add: mask_select_def zip_replicate2 filter_map comp_def)
  have m: "filter (\<lambda>i. map Not (map (list_all isnan) tc) ! i) [0..<length tc] =
           filter (\<lambda>i. \<not> list_all isnan (tc ! i)) [0..<length tc]"
    by (rule filter_cong) simp_all
  have tc2: "mask_select tc (map Not (map (list_all isnan) tc)) =
      Inr (map (\<lambda>i. tc ! i) (filter (\<lambda>i. \<not> list_all isnan (tc ! i)) [0..<length tc]))"
    using m by (simp add: mask_select_conv_nth)
  have pc2: "mask_select pc (map Not (map (list_all isnan) tc)) =
      Inr (map (\<lambda>i. pc ! i) (filter (\<lambda>i. \<not> list_all isnan (tc ! i)) [0..<length tc]))"
    using m assms(4) by (simp add: mask_select_conv_nth)
  show ?thesis
    unfolding mask_protein_def t sum.case tc1 Let_def tc2 pc2 ..
qed

lemma drmsd_returns:
  "length a = length b \<Longrightarrow> \<exists>d. drmsd a b = Inr d"
  by (simp add: drmsd_unfold)

text \<open>
  C4. The claim: for every batch, \<^verbatim>\<open>compute_batch_drmsd\<close> removes the residues with the
  padding token 20 from the true coordinates, removes the atoms whose true coordinates are
  all \<open>NaN\<close> from the true and from the predicted coordinates, and computes the DRMSD on
  the atoms that remain. This holds for proteins without a padding token (lemma
  \<open>mask_protein_no_padding\<close>) but not for every batch. On the batch below, two proteins of two
  and of one residue, padded to two residues with 14 coordinates per residue and with
  predicted coordinates of the documented shape, the padding is removed from the true
  coordinates of the second protein only, and \<^verbatim>\<open>pc[~missing_atoms]\<close> raises
  \<^verbatim>\<open>IndexError\<close>: no DRMSD is computed.
\<close>

theorem compute_batch_drmsd_padded_batch_raises:
  "compute_batch_drmsd 14
     [replicate 28 [Fin 1, Fin 2, Fin 3],
      replicate 14 [Fin 1, Fin 2, Fin 3] @ replicate 14 [Fin 0, Fin 0, Fin 0]]
     [replicate 28 [Fin 1, Fin 2, Fin 3], replicate 28 [Fin 1, Fin 2, Fin 3]]
     [[0, 1], [2, 20]] = Inl IndexError"
proof -
  let ?t1 = "replicate 28 [Fin 1, Fin 2, Fin 3]"
  let ?t2 = "replicate 14 [Fin 1, Fin 2, Fin 3] @ replicate 14 [Fin 0, Fin 0, Fin 0]"
  let ?p = "replicate 28 [Fin 1, Fin 2, Fin 3]"
  let ?keep = "filter (\<lambda>i. \<not> list_all isnan (?t1 ! i)) [0..<length ?t1]"
  have 1: "mask_protein 14 ?p ?t1 [0, 1] = Inr (map (\<lambda>i. ?t1 ! i) ?keep, map (\<lambda>i. ?p ! i) ?keep)"
    by (rule mask_protein_no_padding) simp_all
  obtain d where d: "drmsd (map (\<lambda>i. ?t1 ! i) ?keep) (map (\<lambda>i. ?p ! i) ?keep) = Inr d"
    using drmsd_returns [of "map (\<lambda>i. ?t1 ! i) ?keep" "map (\<lambda>i. ?p ! i) ?keep"] by auto
  have 2: "mask_protein 14 ?p ?t2 [2, 20] = Inl IndexError"
    by (rule mask_protein_padding_raises) simp_all
  show ?thesis
    unfolding compute_batch_drmsd_def
    by (simp only: zip.simps list.case batch_drmsd_loop.simps 1 2 d sum.case prod.case)
      simp
qed

end
